theory Spec2Isabelle
  imports Main "HOL-Library.Sublist" "HOL-Library.Char_ord" "HOL-Library.List_Lexorder"
    "HOL-Library.Code_Target_Numeral"
begin

section \<open>Activity log: data model\<close>

text \<open>
  The package \<open>activitylog\<close> keeps one process-wide connection to a SQLite file
  (\<open>db\<close>, guarded by a \<open>sync.Once\<close>), writes one row per HTTP request from a
  middleware and offers three read queries. The operating system, \<open>database/sql\<close>, the
  SQLite engine, the clock, the router and the JSON encoder are outside the package:
  their answers are parameters of the functions below, and the calls the package makes
  on them are appended to \<open>calls\<close>.
\<close>

text \<open>A Go \<open>error\<close> value; \<open>nil\<close> is \<open>None\<close> of \<open>error option\<close>.\<close>

datatype error = Error string

text \<open>A Go call either returns or panics (a nil pointer dereference, a failed type assertion).\<close>

datatype 'a outcome = Return 'a | Panic string

text \<open>
  A \<open>time.Time\<close>, by what its methods report: the civil date and the clock time in
  its location, and the offset of that location in seconds east of UTC. \<open>time.Now()\<close>
  is in the local zone of the process; \<open>time.Parse\<close> of an RFC 3339 text keeps the
  offset written in the text.
\<close>

record Time =
  Year :: nat
  Month :: nat
  Day :: nat
  Hour :: nat
  Minute :: nat
  Second :: nat
  Nanosecond :: nat
  ZoneOffset :: int

text \<open>The zero \<open>time.Time\<close>: January 1 of year 1, 00:00:00 UTC.\<close>

definition zero_Time :: Time where
  "zero_Time =
     \<lparr>Year = 1, Month = 1, Day = 1, Hour = 0, Minute = 0, Second = 0, Nanosecond = 0,
      ZoneOffset = 0\<rparr>"

text \<open>
  The instant of a \<open>time.Time\<close> (\<open>UnixNano\<close>): the days of its civil date since
  1970-01-01 in the proleptic Gregorian calendar, its clock time less its offset, in
  nanoseconds. This is what \<open>Before\<close>, \<open>After\<close> and \<open>Equal\<close> compare.
\<close>

definition days_from_civil :: "int \<Rightarrow> int \<Rightarrow> int \<Rightarrow> int" where
  "days_from_civil y m d =
     (let y1 = (if m \<le> 2 then y - 1 else y);
          era = y1 div 400;
          yoe = y1 - era * 400;
          doy = (153 * (if m > 2 then m - 3 else m + 9) + 2) div 5 + d - 1;
          doe = yoe * 365 + yoe div 4 - yoe div 100 + doy
      in era * 146097 + doe - 719468)"

definition UnixNano :: "Time \<Rightarrow> int" where
  "UnixNano t =
     ((days_from_civil (int (Year t)) (int (Month t)) (int (Day t)) * 86400
         + int (Hour t) * 3600 + int (Minute t) * 60 + int (Second t)) - ZoneOffset t)
       * 1000000000
     + int (Nanosecond t)"

text \<open>
  How the SQLite driver binds a \<open>time.Time\<close> argument: as the text
  \<open>t.Format("2006-01-02 15:04:05.999999999-07:00")\<close>, that is the civil date and clock
  time of \<open>t\<close> in its own location, the fraction of the second without trailing zeros
  (and without the point when it is zero), and the offset as hours and minutes. The
  column \<open>created_at\<close> holds that text, and SQLite compares texts byte by byte.
\<close>

definition digit :: "nat \<Rightarrow> char" where
  "digit n = ''0123456789'' ! (n mod 10)"

text \<open>A number in decimal, with leading zeros up to the given width.\<close>

function decimal :: "nat \<Rightarrow> nat \<Rightarrow> string" where
  "decimal width n =
     (if n < 10 \<and> width \<le> 1 then [digit n]
      else decimal (width - 1) (n div 10) @ [digit n])"
  by pat_completeness auto
termination
  by (relation "measure (\<lambda>(width, n). width + n)") auto

definition fraction :: "nat \<Rightarrow> string" where
  "fraction ns =
     (let ds = rev (dropWhile (\<lambda>c. c = CHR ''0'') (rev (decimal 9 (ns mod 1000000000))))
      in if ds = [] then [] else ''.'' @ ds)"

definition zone :: "int \<Rightarrow> string" where
  "zone off =
     (let minutes = nat (\<bar>off\<bar> div 60)
      in (if off < 0 \<and> minutes \<noteq> 0 then ''-'' else ''+'')
           @ decimal 2 (minutes div 60) @ '':'' @ decimal 2 (minutes mod 60))"

definition sqlite_text :: "Time \<Rightarrow> string" where
  "sqlite_text t =
     decimal 4 (Year t) @ ''-'' @ decimal 2 (Month t) @ ''-'' @ decimal 2 (Day t) @ '' '' @
     decimal 2 (Hour t) @ '':'' @ decimal 2 (Minute t) @ '':'' @ decimal 2 (Second t) @
     fraction (Nanosecond t) @ zone (ZoneOffset t)"

text \<open>
  The struct \<open>ActivityLog\<close>; a table row has the same ten columns. The column
  \<open>created_at\<close> of a row is \<open>sqlite_text (CreatedAt row)\<close>, and scanning the row
  parses that text back to the same instant and offset.
\<close>

record ActivityLog =
  ID :: int
  SessionID :: string
  RequestID :: string
  ActivityType :: string
  Path :: string
  Method :: string
  StatusCode :: int
  UserCurrency :: string
  Details :: string
  CreatedAt :: Time

text \<open>The SQL texts of the package, by name.\<close>

datatype statement =
  PragmaWAL | Schema | InsertActivity | SelectBySession | SelectRecent | SelectStats

text \<open>The calls the package makes on its collaborators.\<close>

datatype call =
  MkdirAll string
  | SqlOpen string string
  | DbExec statement
  | DbQuery statement
  | LogInfof string
  | LogWarnf string

text \<open>
  The database file \<open>data/activities.db\<close>: the journal mode, the table \<open>activities\<close>
  (\<open>None\<close> while it does not exist, else its rows in insertion order) and the names of
  its indexes.
\<close>

record database =
  journal_mode :: string
  activities :: "ActivityLog list option"
  indexes :: "string list"

text \<open>A \<open>*sql.DB\<close> is a pointer: \<open>None\<close> is \<open>nil\<close>, \<open>Some h\<close> the object at address \<open>h\<close>.\<close>

type_synonym handle = nat

text \<open>
  The package variables \<open>db\<close> and \<open>once\<close> (\<open>once\<close> is the done flag of the
  \<open>sync.Once\<close>), with the database file and the calls made so far.
\<close>

record store =
  db :: "handle option"
  once :: bool
  disk :: database
  calls :: "call list"

text \<open>At process start the package variables hold Go's zero values.\<close>

definition initial_store :: "database \<Rightarrow> store" where
  "initial_store d = \<lparr>db = None, once = False, disk = d, calls = []\<rparr>"

definition empty_database :: database where
  "empty_database = \<lparr>journal_mode = ''delete'', activities = None, indexes = []\<rparr>"

section \<open>Store: InitDB and GetDB\<close>

text \<open>
  What the four fallible steps of the setup answer: \<open>os.MkdirAll\<close>, \<open>sql.Open\<close>
  (which returns a nil \<open>*sql.DB\<close> with its error) and the two \<open>db.Exec\<close> calls.
  The schema is four statements run one after the other, each committed on its own: when
  that \<open>Exec\<close> fails, \<open>schema_result\<close> says how many statements were done before.
\<close>

record init_env =
  mkdir_result :: "error option"
  open_result :: "error + handle"
  pragma_result :: "error option"
  schema_result :: "(nat \<times> error) option"

definition dbFileName :: string where
  "dbFileName = ''activities.db''"

definition dataDir :: string where
  "dataDir = ''data''"

text \<open>\<open>filepath.Join(dataDir, dbFileName)\<close> with the separator \<open>/\<close>.\<close>

definition dbPath :: string where
  "dbPath = dataDir @ ''/'' @ dbFileName"

definition schema_indexes :: "string list" where
  "schema_indexes = [''idx_session'', ''idx_created_at'', ''idx_activity_type'']"

text \<open>
  The constant \<open>schema\<close>: \<open>CREATE TABLE IF NOT EXISTS activities\<close> and three
  \<open>CREATE INDEX IF NOT EXISTS\<close>; what exists is left as it is.
\<close>

definition create_table :: "database \<Rightarrow> database" where
  "create_table d =
     d\<lparr>activities := (case activities d of None \<Rightarrow> Some [] | Some rows \<Rightarrow> Some rows)\<rparr>"

definition create_index :: "string \<Rightarrow> database \<Rightarrow> database" where
  "create_index name d =
     (if name \<in> set (indexes d) then d else d\<lparr>indexes := indexes d @ [name]\<rparr>)"

definition schema_statements :: "(database \<Rightarrow> database) list" where
  "schema_statements = create_table # map create_index schema_indexes"

text \<open>The first \<open>k\<close> statements of the schema, in order.\<close>

definition run_schema :: "nat \<Rightarrow> database \<Rightarrow> database" where
  "run_schema k d = fold (\<lambda>statement db. statement db) (take k schema_statements) d"

definition apply_schema :: "database \<Rightarrow> database" where
  "apply_schema d = run_schema (length schema_statements) d"

definition record_call :: "call \<Rightarrow> store \<Rightarrow> store" where
  "record_call c s = s\<lparr>calls := calls s @ [c]\<rparr>"

text \<open>
  The function literal passed to \<open>once.Do\<close>; the first component is the captured
  variable \<open>err\<close> when the literal returns.
\<close>

definition init_setup :: "init_env \<Rightarrow> store \<Rightarrow> error option \<times> store" where
  "init_setup env s =
     (let s1 = record_call (MkdirAll dataDir) s in
      case mkdir_result env of
        Some e \<Rightarrow> (Some e, s1)
      | None \<Rightarrow>
         (let s2 = record_call (SqlOpen ''sqlite3'' dbPath) s1 in
          case open_result env of
            Inl e \<Rightarrow> (Some e, s2\<lparr>db := None\<rparr>)
          | Inr h \<Rightarrow>
             (let s3 = record_call (DbExec PragmaWAL) (s2\<lparr>db := Some h\<rparr>) in
              case pragma_result env of
                Some e \<Rightarrow> (Some e, s3)
              | None \<Rightarrow>
                 (let s4 = record_call (DbExec Schema)
                             (s3\<lparr>disk := (disk s3)\<lparr>journal_mode := ''wal''\<rparr>\<rparr>) in
                  case schema_result env of
                    Some (k, e) \<Rightarrow> (Some e, s4\<lparr>disk := run_schema k (disk s4)\<rparr>)
                  | None \<Rightarrow>
                     (None,
                      record_call
                        (LogInfof (''Activity logging database initialized at: '' @ dbPath))
                        (s4\<lparr>disk := apply_schema (disk s4)\<rparr>))))))"

text \<open>
  \<open>InitDB\<close>: \<open>var err error\<close> starts as nil; \<open>once.Do\<close> runs the literal only on the
  first call and marks the \<open>Once\<close> done when the literal returns, whatever it set
  \<open>err\<close> to.
\<close>

definition InitDB :: "init_env \<Rightarrow> store \<Rightarrow> error option \<times> store" where
  "InitDB env s =
     (if once s then (None, s)
      else (case init_setup env s of (err, s') \<Rightarrow> (err, s'\<lparr>once := True\<rparr>)))"

definition GetDB :: "store \<Rightarrow> handle option" where
  "GetDB s = db s"

text \<open>Later calls of \<open>InitDB\<close>, one after the other: their results and the last state.\<close>

fun InitDB_calls :: "init_env list \<Rightarrow> store \<Rightarrow> error option list \<times> store" where
  "InitDB_calls [] s = ([], s)"
| "InitDB_calls (env # envs) s =
     (case InitDB env s of (err, s') \<Rightarrow>
        (case InitDB_calls envs s' of (errs, s'') \<Rightarrow> (err # errs, s'')))"

definition schema_present :: "database \<Rightarrow> bool" where
  "schema_present d = (activities d \<noteq> None \<and> list_all (\<lambda>i. i \<in> set (indexes d)) schema_indexes)"

text \<open>Environments in which the setup succeeds, or fails at one of its steps.\<close>

definition env_ok :: init_env where
  "env_ok = \<lparr>mkdir_result = None, open_result = Inr 1, pragma_result = None, schema_result = None\<rparr>"

definition env_mkdir_fails :: init_env where
  "env_mkdir_fails = env_ok\<lparr>mkdir_result := Some (Error ''mkdir data: permission denied'')\<rparr>"

definition env_open_fails :: init_env where
  "env_open_fails = env_ok\<lparr>open_result := Inl (Error ''sql: unknown driver'')\<rparr>"

definition env_pragma_fails :: init_env where
  "env_pragma_fails = env_ok\<lparr>pragma_result := Some (Error ''unable to open database file'')\<rparr>"

definition env_schema_fails :: init_env where
  "env_schema_fails = env_ok\<lparr>schema_result := Some (0, Error ''disk I/O error'')\<rparr>"

section \<open>Repository: the SQL statements\<close>

text \<open>
  SQLite and \<open>database/sql\<close> execute the statements. Each statement is given its
  relational meaning on the rows of the table, with \<open>created_at\<close> compared as the text
  the driver stored, and a statement that fails changes nothing. What can go wrong outside
  the package is a
  parameter: \<open>db.Query\<close> returns an error, \<open>rows.Scan\<close> fails at one row, or the
  iteration stops early and \<open>rows.Err()\<close> reports why.
\<close>

datatype fault = NoFault | QueryFails error | ScanFails nat error | RowsFail nat error

text \<open>
  An open \<open>*sql.Rows\<close>: for each row that \<open>rows.Next()\<close> yields, what \<open>rows.Scan\<close>
  gives there, and the value of \<open>rows.Err()\<close> after the loop.
\<close>

type_synonym 'r rows = "(error + 'r) list \<times> error option"

definition db_Query :: "fault \<Rightarrow> 'r list \<Rightarrow> error + 'r rows" where
  "db_Query f rs =
     (case f of
        NoFault \<Rightarrow> Inr (map Inr rs, None)
      | QueryFails e \<Rightarrow> Inl e
      | ScanFails k e \<Rightarrow> Inr ((map Inr rs)[k := Inl e], None)
      | RowsFail k e \<Rightarrow> Inr (map Inr (take k rs), Some e))"

text \<open>A \<open>SELECT ... FROM activities\<close>: an error when the table does not exist.\<close>

definition run_select ::
  "fault \<Rightarrow> database \<Rightarrow> (ActivityLog list \<Rightarrow> 'r list) \<Rightarrow> error + 'r rows" where
  "run_select f d sel =
     (case activities d of
        None \<Rightarrow> Inl (Error ''no such table: activities'')
      | Some table \<Rightarrow> db_Query f (sel table))"

text \<open>\<open>LIMIT ?\<close>: SQLite reads a negative limit as no limit.\<close>

definition sql_limit :: "int \<Rightarrow> 'a list \<Rightarrow> 'a list" where
  "sql_limit n xs = (if n < 0 then xs else take (nat n) xs)"

text \<open>The value of the column \<open>created_at\<close> of a row.\<close>

definition created_at :: "ActivityLog \<Rightarrow> string" where
  "created_at a = sqlite_text (CreatedAt a)"

text \<open>
  \<open>ORDER BY created_at DESC\<close>: by the stored text, largest first; rows with equal
  text come latest insertion first.
\<close>

definition order_by_created_at_desc :: "ActivityLog list \<Rightarrow> ActivityLog list" where
  "order_by_created_at_desc table = rev (sort_key created_at table)"

text \<open>\<open>WHERE session_id = ? ORDER BY created_at DESC LIMIT ?\<close>.\<close>

definition select_by_session :: "string \<Rightarrow> int \<Rightarrow> ActivityLog list \<Rightarrow> ActivityLog list" where
  "select_by_session sessionID limit table =
     sql_limit limit (order_by_created_at_desc (filter (\<lambda>a. SessionID a = sessionID) table))"

text \<open>\<open>ORDER BY created_at DESC LIMIT ?\<close>.\<close>

definition select_recent :: "int \<Rightarrow> ActivityLog list \<Rightarrow> ActivityLog list" where
  "select_recent limit table = sql_limit limit (order_by_created_at_desc table)"

text \<open>
  \<open>SELECT activity_type, COUNT(*) ... WHERE created_at BETWEEN ? AND ? GROUP BY
  activity_type\<close>: one result row for each activity type that occurs among the selected
  rows. The two arguments are bound as texts, like the ninth one of the \<open>INSERT\<close>.
\<close>

definition select_stats :: "Time \<Rightarrow> Time \<Rightarrow> ActivityLog list \<Rightarrow> (string \<times> int) list" where
  "select_stats startTime endTime table =
     (let sel = filter (\<lambda>a. sqlite_text startTime \<le> created_at a \<and>
                               created_at a \<le> sqlite_text endTime) table
      in map (\<lambda>t. (t, int (length (filter (\<lambda>a. ActivityType a = t) sel))))
             (remdups (map ActivityType sel)))"

text \<open>
  \<open>id INTEGER PRIMARY KEY AUTOINCREMENT\<close>: one more than the largest id given so far;
  no statement of the package deletes a row, so that is the largest id in the table.
\<close>

definition next_id :: "ActivityLog list \<Rightarrow> int" where
  "next_id table = fold max (map ID table) 0 + 1"

text \<open>
  The \<open>INSERT\<close> of \<open>LogActivity\<close>: eight columns from the struct, \<open>created_at\<close> from
  the ninth argument.
\<close>

definition sql_insert ::
  "error option \<Rightarrow> Time \<Rightarrow> ActivityLog \<Rightarrow> database \<Rightarrow> error + database" where
  "sql_insert failure created activity d =
     (case failure of
        Some e \<Rightarrow> Inl e
      | None \<Rightarrow>
         (case activities d of
            None \<Rightarrow> Inl (Error ''no such table: activities'')
          | Some table \<Rightarrow>
              Inr (d\<lparr>activities :=
                       Some (table @ [activity\<lparr>ID := next_id table, CreatedAt := created\<rparr>])\<rparr>)))"

section \<open>Repository: the Go functions\<close>

definition nil_dereference :: string where
  "nil_dereference = ''invalid memory address or nil pointer dereference''"

text \<open>What one call of \<open>LogActivity\<close> meets: the clock and the fate of its \<open>Exec\<close>.\<close>

record exec_env =
  now :: Time
  exec_failure :: "error option"

text \<open>
  \<open>LogActivity\<close>: a method call on a nil \<open>*sql.DB\<close> panics; else one \<open>Exec\<close>, whose
  error is returned as it is.
\<close>

definition LogActivity :: "exec_env \<Rightarrow> ActivityLog \<Rightarrow> store \<Rightarrow> error option outcome \<times> store" where
  "LogActivity env activity s =
     (case GetDB s of
        None \<Rightarrow> (Panic nil_dereference, s)
      | Some h \<Rightarrow>
         (let s1 = record_call (DbExec InsertActivity) s in
          case sql_insert (exec_failure env) (now env) activity (disk s1) of
            Inl err \<Rightarrow> (Return (Some err), s1)
          | Inr d \<Rightarrow> (Return None, s1\<lparr>disk := d\<rparr>)))"

text \<open>The loop \<open>for rows.Next()\<close> of \<open>queryActivities\<close>, with the slice built so far.\<close>

fun scan_activities :: "(error + ActivityLog) list \<Rightarrow> ActivityLog list \<Rightarrow> error + ActivityLog list" where
  "scan_activities [] acc = Inr acc"
| "scan_activities (Inl err # rest) acc = Inl err"
| "scan_activities (Inr activity # rest) acc = scan_activities rest (acc @ [activity])"

text \<open>
  \<open>queryActivities\<close>, for the statement and the selection it stands for. The result is
  the pair the Go function returns; a nil slice is the empty list.
\<close>

definition queryActivities ::
  "fault \<Rightarrow> statement \<Rightarrow> (ActivityLog list \<Rightarrow> ActivityLog list) \<Rightarrow> store
     \<Rightarrow> (ActivityLog list \<times> error option) outcome \<times> store" where
  "queryActivities f query sel s =
     (case GetDB s of
        None \<Rightarrow> (Panic nil_dereference, s)
      | Some h \<Rightarrow>
         (let s1 = record_call (DbQuery query) s in
          case run_select f (disk s1) sel of
            Inl err \<Rightarrow> (Return ([], Some err), s1)
          | Inr (items, rows_err) \<Rightarrow>
             (case scan_activities items [] of
                Inl err \<Rightarrow> (Return ([], Some err), s1)
              | Inr found \<Rightarrow> (Return (found, rows_err), s1))))"

definition GetActivitiesBySession ::
  "fault \<Rightarrow> string \<Rightarrow> int \<Rightarrow> store \<Rightarrow> (ActivityLog list \<times> error option) outcome \<times> store" where
  "GetActivitiesBySession f sessionID limit s =
     queryActivities f SelectBySession (select_by_session sessionID limit) s"

definition GetRecentActivities ::
  "fault \<Rightarrow> int \<Rightarrow> store \<Rightarrow> (ActivityLog list \<times> error option) outcome \<times> store" where
  "GetRecentActivities f limit s = queryActivities f SelectRecent (select_recent limit) s"

text \<open>The loop of \<open>GetActivityStats\<close>: \<open>stats[activityType] = count\<close> for each row.\<close>

fun scan_stats :: "(error + string \<times> int) list \<Rightarrow> (string \<rightharpoonup> int) \<Rightarrow> error + (string \<rightharpoonup> int)" where
  "scan_stats [] stats = Inr stats"
| "scan_stats (Inl err # rest) stats = Inl err"
| "scan_stats (Inr (activityType, count) # rest) stats =
     scan_stats rest (stats(activityType \<mapsto> count))"

text \<open>\<open>GetActivityStats\<close>; a nil map is the empty map.\<close>

definition GetActivityStats ::
  "fault \<Rightarrow> Time \<Rightarrow> Time \<Rightarrow> store
     \<Rightarrow> ((string \<rightharpoonup> int) \<times> error option) outcome \<times> store" where
  "GetActivityStats f startTime endTime s =
     (case GetDB s of
        None \<Rightarrow> (Panic nil_dereference, s)
      | Some h \<Rightarrow>
         (let s1 = record_call (DbQuery SelectStats) s in
          case run_select f (disk s1) (select_stats startTime endTime) of
            Inl err \<Rightarrow> (Return (Map.empty, Some err), s1)
          | Inr (items, rows_err) \<Rightarrow>
             (case scan_stats items Map.empty of
                Inl err \<Rightarrow> (Return (Map.empty, Some err), s1)
              | Inr stats \<Rightarrow> (Return (stats, rows_err), s1))))"

text \<open>The rows a database file holds; none while the table does not exist.\<close>

definition persisted :: "store \<Rightarrow> ActivityLog list" where
  "persisted s = (case activities (disk s) of None \<Rightarrow> [] | Some table \<Rightarrow> table)"

text \<open>
  The number of rows of one activity type whose creation time, as an instant, lies
  within \<open>[startTime, endTime]\<close>, the bounds included.
\<close>

definition count_in_window :: "Time \<Rightarrow> Time \<Rightarrow> ActivityLog list \<Rightarrow> string \<Rightarrow> nat" where
  "count_in_window startTime endTime table t =
     length (filter (\<lambda>a. ActivityType a = t \<and> UnixNano startTime \<le> UnixNano (CreatedAt a) \<and>
                          UnixNano (CreatedAt a) \<le> UnixNano endTime)
               table)"

text \<open>The operations the package offers on the store, with what each meets outside.\<close>

datatype operation =
  OpInitDB init_env
  | OpLogActivity exec_env ActivityLog
  | OpGetActivitiesBySession fault string int
  | OpGetRecentActivities fault int
  | OpGetActivityStats fault Time Time

fun perform :: "operation \<Rightarrow> store \<Rightarrow> store" where
  "perform (OpInitDB env) s = snd (InitDB env s)"
| "perform (OpLogActivity env activity) s = snd (LogActivity env activity s)"
| "perform (OpGetActivitiesBySession f sessionID limit) s =
     snd (GetActivitiesBySession f sessionID limit s)"
| "perform (OpGetRecentActivities f limit) s = snd (GetRecentActivities f limit s)"
| "perform (OpGetActivityStats f startTime endTime) s =
     snd (GetActivityStats f startTime endTime s)"

section \<open>Middleware\<close>

text \<open>Common activity types.\<close>

definition ActivityTypePageView :: string where
  "ActivityTypePageView = ''page_view''"

definition ActivityTypeAddToCart :: string where
  "ActivityTypeAddToCart = ''add_to_cart''"

definition ActivityTypeEmptyCart :: string where
  "ActivityTypeEmptyCart = ''empty_cart''"

definition ActivityTypeCheckout :: string where
  "ActivityTypeCheckout = ''checkout''"

definition ActivityTypeCurrencyChange :: string where
  "ActivityTypeCurrencyChange = ''currency_change''"

definition ActivityTypeProductView :: string where
  "ActivityTypeProductView = ''product_view''"

text \<open>A \<open>*mux.Route\<close>, by its path template when it has one.\<close>

datatype route = Route "string option"

text \<open>\<open>route.GetPathTemplate()\<close>: the empty string and an error for a route without one.\<close>

fun GetPathTemplate :: "route \<Rightarrow> string \<times> error option" where
  "GetPathTemplate (Route (Some tpl)) = (tpl, None)"
| "GetPathTemplate (Route None) = ([], Some (Error ''mux: route does not have a path''))"

text \<open>
  What the middleware reads of an \<open>*http.Request\<close>: method, URL path, the two context
  values (\<open>None\<close> when absent or not a string), the cookie \<open>currency\<close>, the route
  \<open>mux.CurrentRoute\<close> finds (\<open>None\<close> for nil), the route variables and the form values.
\<close>

record request =
  req_Method :: string
  req_URLPath :: string
  ctx_SessionID :: "string option"
  ctx_RequestID :: "string option"
  cookie_currency :: "string option"
  CurrentRoute :: "route option"
  Vars :: "(string \<times> string) list"
  Form :: "(string \<times> string) list"

text \<open>\<open>r.FormValue(key)\<close> and \<open>mux.Vars(r)[key]\<close>: the empty string for a missing key.\<close>

definition FormValue :: "request \<Rightarrow> string \<Rightarrow> string" where
  "FormValue r key = (case map_of (Form r) key of None \<Rightarrow> [] | Some v \<Rightarrow> v)"

definition VarsAt :: "request \<Rightarrow> string \<Rightarrow> string" where
  "VarsAt r key = (case map_of (Vars r) key of None \<Rightarrow> [] | Some v \<Rightarrow> v)"

definition getActivityType :: "request \<Rightarrow> string" where
  "getActivityType r =
     (case CurrentRoute r of
        None \<Rightarrow> ''unknown''
      | Some rt \<Rightarrow>
         (let path = fst (GetPathTemplate rt); method = req_Method r in
          if path = ''/'' \<and> method = ''GET'' then ActivityTypePageView
          else if path = ''/cart'' \<and> method = ''POST'' then ActivityTypeAddToCart
          else if path = ''/cart/empty'' \<and> method = ''POST'' then ActivityTypeEmptyCart
          else if path = ''/cart/checkout'' \<and> method = ''POST'' then ActivityTypeCheckout
          else if path = ''/setCurrency'' \<and> method = ''POST'' then ActivityTypeCurrencyChange
          else if prefix ''/product/'' path \<and> method = ''GET'' then ActivityTypeProductView
          else ''other''))"

definition currentCurrency :: "request \<Rightarrow> string" where
  "currentCurrency r = (case cookie_currency r of Some v \<Rightarrow> v | None \<Rightarrow> ''USD'')"

text \<open>
  The calls an \<open>http.ResponseWriter\<close> receives. The underlying writer of the recorder
  is any implementation of the interface, so it is kept as the list of calls it has
  received: that list is the response as the caller's writer sees it.
\<close>

datatype writer_call = CallHeader | CallWrite string | CallWriteHeader int

record responseRecorder =
  w :: "writer_call list"
  status :: int

definition StatusOK :: int where
  "StatusOK = 200"

definition Header :: "responseRecorder \<Rightarrow> responseRecorder" where
  "Header rr = rr\<lparr>w := w rr @ [CallHeader]\<rparr>"

definition Write :: "string \<Rightarrow> responseRecorder \<Rightarrow> responseRecorder" where
  "Write b rr =
     (let rr1 = (if status rr = 0 then rr\<lparr>status := StatusOK\<rparr> else rr)
      in rr1\<lparr>w := w rr1 @ [CallWrite b]\<rparr>)"

definition WriteHeader :: "int \<Rightarrow> responseRecorder \<Rightarrow> responseRecorder" where
  "WriteHeader st rr = (let rr1 = rr\<lparr>status := st\<rparr> in rr1\<lparr>w := w rr1 @ [CallWriteHeader st]\<rparr>)"

text \<open>
  The wrapped handler, seen from the recorder: the calls it makes on the writer it is
  given, in order. The recorder's methods return what the underlying writer returns, so
  the handler makes the same calls on either.
\<close>

fun recorder_call :: "writer_call \<Rightarrow> responseRecorder \<Rightarrow> responseRecorder" where
  "recorder_call CallHeader rr = Header rr"
| "recorder_call (CallWrite b) rr = Write b rr"
| "recorder_call (CallWriteHeader st) rr = WriteHeader st rr"

fun next_ServeHTTP :: "writer_call list \<Rightarrow> responseRecorder \<Rightarrow> responseRecorder" where
  "next_ServeHTTP [] rr = rr"
| "next_ServeHTTP (c # cs) rr = next_ServeHTTP cs (recorder_call c rr)"

text \<open>The \<open>details\<close> map of \<open>ServeHTTP\<close>, as its key-value pairs.\<close>

definition request_details :: "string \<Rightarrow> request \<Rightarrow> (string \<times> string) list" where
  "request_details activityType r =
     (if activityType = ActivityTypeAddToCart then
        [(''product_id'', FormValue r ''product_id''), (''quantity'', FormValue r ''quantity'')]
      else if activityType = ActivityTypeProductView then
        (if CurrentRoute r \<noteq> None then [(''product_id'', VarsAt r ''id'')] else [])
      else if activityType = ActivityTypeCurrencyChange then
        [(''new_currency'', FormValue r ''currency_code'')]
      else [])"

definition error_text :: "error \<Rightarrow> string" where
  "error_text e = (case e of Error msg \<Rightarrow> msg)"

text \<open>
  What \<open>ServeHTTP\<close> leaves behind: whether it returned, the calls the underlying writer
  has received, and the store.
\<close>

record served =
  result :: "unit outcome"
  response :: "writer_call list"
  store_after :: store

text \<open>
  \<open>ServeHTTP\<close>. \<open>json_Marshal\<close> stands for \<open>json.Marshal\<close> on the details map and
  \<open>wrapped\<close> for the handler \<open>m.next\<close>; \<open>w0\<close> is what the underlying writer has
  received before. A missing context value fails its type assertion.
\<close>

definition ServeHTTP ::
  "((string \<times> string) list \<Rightarrow> error + string) \<Rightarrow> exec_env \<Rightarrow> (request \<Rightarrow> writer_call list)
     \<Rightarrow> writer_call list \<Rightarrow> request \<Rightarrow> store \<Rightarrow> served" where
  "ServeHTTP json_Marshal env wrapped w0 r s =
     (let rr = \<lparr>w = w0, status = 0\<rparr> in
      case ctx_SessionID r of
        None \<Rightarrow> \<lparr>result = Panic ''interface conversion: interface {} is nil, not string'',
                  response = w rr, store_after = s\<rparr>
      | Some sessionID \<Rightarrow>
         (case ctx_RequestID r of
            None \<Rightarrow> \<lparr>result = Panic ''interface conversion: interface {} is nil, not string'',
                      response = w rr, store_after = s\<rparr>
          | Some requestID \<Rightarrow>
             (let userCurrency = currentCurrency r;
                  activity = \<lparr>ID = 0, SessionID = sessionID, RequestID = requestID,
                              ActivityType = getActivityType r, Path = req_URLPath r,
                              Method = req_Method r, StatusCode = 0,
                              UserCurrency = userCurrency, Details = [],
                              CreatedAt = zero_Time\<rparr>;
                  rr1 = next_ServeHTTP (wrapped r) rr;
                  activity1 = activity\<lparr>StatusCode := status rr1\<rparr>;
                  details = request_details (ActivityType activity1) r;
                  activity2 =
                    (if length details > 0 then
                       (case json_Marshal details of
                          Inr detailsJSON \<Rightarrow> activity1\<lparr>Details := detailsJSON\<rparr>
                        | Inl err \<Rightarrow> activity1)
                     else activity1)
              in case LogActivity env activity2 s of
                   (Panic p, s1) \<Rightarrow> \<lparr>result = Panic p, response = w rr1, store_after = s1\<rparr>
                 | (Return (Some err), s1) \<Rightarrow>
                     \<lparr>result = Return (), response = w rr1,
                      store_after =
                        record_call (LogWarnf (''Failed to log activity: '' @ error_text err)) s1\<rparr>
                 | (Return None, s1) \<Rightarrow>
                     \<lparr>result = Return (), response = w rr1, store_after = s1\<rparr>)))"

section \<open>Reference definitions\<close>

text \<open>
  The classifier as the specification words it: an ordered list of rules, each an exact
  path or a path prefix with a method, the first match wins, and \<open>other\<close> when no rule
  matches; \<open>unknown\<close> when no route is resolved.
\<close>

datatype path_rule = Exact string | PathPrefix string

fun path_matches :: "path_rule \<Rightarrow> string \<Rightarrow> bool" where
  "path_matches (Exact p) path = (path = p)"
| "path_matches (PathPrefix p) path = prefix p path"

definition classify_rules :: "(path_rule \<times> string \<times> string) list" where
  "classify_rules =
     [(Exact ''/'', ''GET'', ''page_view''),
      (Exact ''/cart'', ''POST'', ''add_to_cart''),
      (Exact ''/cart/empty'', ''POST'', ''empty_cart''),
      (Exact ''/cart/checkout'', ''POST'', ''checkout''),
      (Exact ''/setCurrency'', ''POST'', ''currency_change''),
      (PathPrefix ''/product/'', ''GET'', ''product_view'')]"

fun first_match :: "(path_rule \<times> string \<times> string) list \<Rightarrow> string \<Rightarrow> string \<Rightarrow> string" where
  "first_match [] method path = ''other''"
| "first_match ((pr, m, t) # rules) method path =
     (if path_matches pr path \<and> method = m then t else first_match rules method path)"

fun classify :: "string \<Rightarrow> string option \<Rightarrow> string" where
  "classify method None = ''unknown''"
| "classify method (Some routeTemplate) = first_match classify_rules method routeTemplate"

definition activity_types :: "string list" where
  "activity_types =
     [''page_view'', ''add_to_cart'', ''empty_cart'', ''checkout'', ''currency_change'',
      ''product_view'', ''other'', ''unknown'']"

text \<open>The first status code a handler wrote with \<open>WriteHeader\<close>, if it wrote one.\<close>

fun first_WriteHeader :: "writer_call list \<Rightarrow> int option" where
  "first_WriteHeader [] = None"
| "first_WriteHeader (CallWriteHeader st # cs) = Some st"
| "first_WriteHeader (c # cs) = first_WriteHeader cs"

section \<open>Examples\<close>

definition example_request :: request where
  "example_request =
     \<lparr>req_Method = ''POST'', req_URLPath = ''/cart/checkout'',
      ctx_SessionID = Some ''s1'', ctx_RequestID = Some ''r1'', cookie_currency = None,
      CurrentRoute = Some (Route (Some ''/cart/checkout'')), Vars = [], Form = []\<rparr>"

text \<open>A time on 2025-01-01 in UTC, in the first minute after midnight.\<close>

definition at_second :: "nat \<Rightarrow> Time" where
  "at_second n =
     \<lparr>Year = 2025, Month = 1, Day = 1, Hour = 0, Minute = 0, Second = n, Nanosecond = 0,
      ZoneOffset = 0\<rparr>"

definition example_row :: "int \<Rightarrow> string \<Rightarrow> string \<Rightarrow> nat \<Rightarrow> ActivityLog" where
  "example_row i sessionID activityType created =
     \<lparr>ID = i, SessionID = sessionID, RequestID = ''r'', ActivityType = activityType,
      Path = ''/'', Method = ''GET'', StatusCode = 200, UserCurrency = ''USD'',
      Details = [], CreatedAt = at_second created\<rparr>"

definition example_table :: "ActivityLog list" where
  "example_table =
     [example_row 1 ''s1'' ''page_view'' 10,
      example_row 2 ''s2'' ''page_view'' 20,
      example_row 3 ''s1'' ''checkout'' 30,
      example_row 4 ''s1'' ''page_view'' 40]"

definition example_store :: store where
  "example_store =
     \<lparr>db = Some 1, once = True,
      disk = \<lparr>journal_mode = ''wal'', activities = Some example_table, indexes = schema_indexes\<rparr>,
      calls = []\<rparr>"

definition env_insert_ok :: exec_env where
  "env_insert_ok = \<lparr>now = at_second 50, exec_failure = None\<rparr>"

definition env_insert_fails :: exec_env where
  "env_insert_fails =
     \<lparr>now = at_second 50, exec_failure = Some (Error ''database is locked'')\<rparr>"

definition example_handler :: "request \<Rightarrow> writer_call list" where
  "example_handler r = [CallHeader, CallWriteHeader 302, CallWrite ''moved'']"

definition example_marshal :: "(string \<times> string) list \<Rightarrow> error + string" where
  "example_marshal details = Inr (concat (map (\<lambda>(k, v). k @ ''='' @ v @ '';'') details))"

text \<open>An opened database with the schema and no rows.\<close>

definition opened_store :: store where
  "opened_store =
     \<lparr>db = Some 1, once = True,
      disk = \<lparr>journal_mode = ''wal'', activities = Some [], indexes = schema_indexes\<rparr>,
      calls = []\<rparr>"

definition example_activity :: "string \<Rightarrow> string \<Rightarrow> ActivityLog" where
  "example_activity sessionID activityType =
     \<lparr>ID = 0, SessionID = sessionID, RequestID = ''r'', ActivityType = activityType,
      Path = ''/'', Method = ''GET'', StatusCode = 200, UserCurrency = ''USD'',
      Details = [], CreatedAt = zero_Time\<rparr>"

text \<open>
  A process whose local zone is UTC logs a page view at 2025-01-01 12:00:00 UTC; the
  statistics are then asked for 16:30 to 17:30 at offset +05:00, which is 11:30 to 12:30
  UTC.
\<close>

definition noon_utc :: Time where
  "noon_utc =
     \<lparr>Year = 2025, Month = 1, Day = 1, Hour = 12, Minute = 0, Second = 0, Nanosecond = 0,
      ZoneOffset = 0\<rparr>"

definition window_start :: Time where
  "window_start =
     \<lparr>Year = 2025, Month = 1, Day = 1, Hour = 16, Minute = 30, Second = 0, Nanosecond = 0,
      ZoneOffset = 18000\<rparr>"

definition window_end :: Time where
  "window_end =
     \<lparr>Year = 2025, Month = 1, Day = 1, Hour = 17, Minute = 30, Second = 0, Nanosecond = 0,
      ZoneOffset = 18000\<rparr>"

definition noon_store :: store where
  "noon_store =
     snd (LogActivity \<lparr>now = noon_utc, exec_failure = None\<rparr>
            (example_activity ''s1'' ''page_view'') opened_store)"

definition noon_row :: ActivityLog where
  "noon_row = (example_activity ''s1'' ''page_view'')\<lparr>ID := 1, CreatedAt := noon_utc\<rparr>"

text \<open>
  A process in a zone that leaves daylight saving time on 2025-11-02 logs one activity at
  01:30:00 at offset -04:00 and a second one forty minutes later, at 01:10:00 at offset
  -05:00.
\<close>

definition before_change :: Time where
  "before_change =
     \<lparr>Year = 2025, Month = 11, Day = 2, Hour = 1, Minute = 30, Second = 0, Nanosecond = 0,
      ZoneOffset = - 14400\<rparr>"

definition after_change :: Time where
  "after_change =
     \<lparr>Year = 2025, Month = 11, Day = 2, Hour = 1, Minute = 10, Second = 0, Nanosecond = 0,
      ZoneOffset = - 18000\<rparr>"

definition change_store :: store where
  "change_store =
     snd (LogActivity \<lparr>now = after_change, exec_failure = None\<rparr>
            (example_activity ''s1'' ''checkout'')
            (snd (LogActivity \<lparr>now = before_change, exec_failure = None\<rparr>
                    (example_activity ''s1'' ''page_view'') opened_store)))"

definition older_row :: ActivityLog where
  "older_row = (example_activity ''s1'' ''page_view'')\<lparr>ID := 1, CreatedAt := before_change\<rparr>"

definition newer_row :: ActivityLog where
  "newer_row = (example_activity ''s1'' ''checkout'')\<lparr>ID := 2, CreatedAt := after_change\<rparr>"

section \<open>Store: helper lemmas\<close>

lemma InitDB_done: "once s \<Longrightarrow> InitDB env s = (None, s)"
  by (simp add: InitDB_def)

lemma once_after_InitDB: "once (snd (InitDB env s))"
  by (simp add: InitDB_def split: prod.splits)

lemma InitDB_calls_done:
  "once s \<Longrightarrow> InitDB_calls envs s = (replicate (length envs) None, s)"
  by (induction envs) (simp_all add: InitDB_done)

lemma apply_schema_unfold:
  "apply_schema d =
     create_index ''idx_activity_type''
       (create_index ''idx_created_at'' (create_index ''idx_session'' (create_table d)))"
  by (simp add: apply_schema_def run_schema_def schema_statements_def schema_indexes_def)

lemma indexes_create_index: "set (indexes (create_index name d)) = insert name (set (indexes d))"
  by (auto simp add: create_index_def)

lemma activities_create_index: "activities (create_index name d) = activities d"
  by (simp add: create_index_def)

lemma schema_present_apply_schema: "schema_present (apply_schema d)"
  by (simp add: schema_present_def apply_schema_unfold schema_indexes_def indexes_create_index
      activities_create_index create_table_def split: option.splits)

lemma journal_mode_statement:
  "statement \<in> set schema_statements \<Longrightarrow> journal_mode (statement d) = journal_mode d"
  by (auto simp add: schema_statements_def create_table_def create_index_def)

lemma rows_statement:
  "statement \<in> set schema_statements \<Longrightarrow>
   (case activities (statement d) of None \<Rightarrow> [] | Some table \<Rightarrow> table)
     = (case activities d of None \<Rightarrow> [] | Some table \<Rightarrow> table)"
  by (auto simp add: schema_statements_def create_table_def activities_create_index
      split: option.splits)

lemma fold_statements:
  assumes "set statements \<subseteq> set schema_statements"
  shows "journal_mode (fold (\<lambda>statement db. statement db) statements d) = journal_mode d \<and>
         (case activities (fold (\<lambda>statement db. statement db) statements d) of
            None \<Rightarrow> [] | Some table \<Rightarrow> table)
           = (case activities d of None \<Rightarrow> [] | Some table \<Rightarrow> table)"
  using assms
proof (induction statements arbitrary: d)
  case Nil
  then show ?case by simp
next
  case (Cons statement statements)
  then have "statement \<in> set schema_statements" and "set statements \<subseteq> set schema_statements"
    by simp_all
  with Cons.IH [of "statement d"] journal_mode_statement [of statement d]
    rows_statement [of statement d]
  show ?case by simp
qed

lemma run_schema_keeps:
  "journal_mode (run_schema k d) = journal_mode d \<and>
   (case activities (run_schema k d) of None \<Rightarrow> [] | Some table \<Rightarrow> table)
     = (case activities d of None \<Rightarrow> [] | Some table \<Rightarrow> table)"
  unfolding run_schema_def by (rule fold_statements) (rule set_take_subset)

lemma journal_mode_apply_schema: "journal_mode (apply_schema d) = journal_mode d"
  by (simp add: apply_schema_def run_schema_keeps)

lemma init_setup_success:
  assumes "init_setup env s = (None, s')"
  shows "\<exists>h. open_result env = Inr h \<and> db s' = Some h \<and> schema_present (disk s')
           \<and> journal_mode (disk s') = ''wal''"
  using assms
  by (auto simp add: init_setup_def record_call_def Let_def schema_present_apply_schema
      journal_mode_apply_schema split: option.splits sum.splits prod.splits)

section \<open>Store: the handle accessor\<close>

text \<open>
  C1, as the specification states it, fails: \<open>GetDB\<close> has no error to report. Before
  any \<open>InitDB\<close> it returns nil, and after an \<open>InitDB\<close> that failed at the journal-mode
  pragma it returns the handle \<open>sql.Open\<close> gave, on a database without the schema.
\<close>

theorem GetDB_counterexample:
  "GetDB (initial_store empty_database) = None \<and>
   fst (InitDB env_pragma_fails (initial_store empty_database)) \<noteq> None \<and>
   GetDB (snd (InitDB env_pragma_fails (initial_store empty_database))) = Some 1 \<and>
   \<not> schema_present (disk (snd (InitDB env_pragma_fails (initial_store empty_database))))"
  by (simp add: GetDB_def InitDB_def init_setup_def initial_store_def empty_database_def
      env_pragma_fails_def env_ok_def record_call_def schema_present_def)

text \<open>
  C1 (amended): \<open>GetDB\<close> returns the package variable \<open>db\<close> as it is. Before the
  first \<open>InitDB\<close> that is nil; after a first \<open>InitDB\<close> that failed it is nil when
  the failure was the directory creation or the file open, and the handle that
  \<open>sql.Open\<close> returned when the failure was the pragma or the schema.
\<close>

theorem GetDB_before_init:
  assumes "\<not> once s" and "db s = None" and "InitDB env s = (Some e, s')"
  shows "GetDB s = None \<and>
         GetDB s' =
           (case mkdir_result env of
              Some e1 \<Rightarrow> None
            | None \<Rightarrow> (case open_result env of Inl e2 \<Rightarrow> None | Inr h \<Rightarrow> Some h))"
  using assms
  by (auto simp add: GetDB_def InitDB_def init_setup_def record_call_def Let_def
      split: option.splits sum.splits prod.splits)

theorem GetDB_before_init_witness:
  "\<not> once (initial_store empty_database) \<and> db (initial_store empty_database) = None \<and>
   InitDB env_schema_fails (initial_store empty_database) =
     (Some (Error ''disk I/O error''),
      \<lparr>db = Some 1, once = True,
       disk = \<lparr>journal_mode = ''wal'', activities = None, indexes = []\<rparr>,
       calls = [MkdirAll ''data'', SqlOpen ''sqlite3'' ''data/activities.db'',
                DbExec PragmaWAL, DbExec Schema]\<rparr>) \<and>
   GetDB (initial_store empty_database) = None \<and>
   GetDB \<lparr>db = Some 1, once = True,
       disk = \<lparr>journal_mode = ''wal'', activities = None, indexes = []\<rparr>,
       calls = [MkdirAll ''data'', SqlOpen ''sqlite3'' ''data/activities.db'',
                DbExec PragmaWAL, DbExec Schema]\<rparr> = Some 1"
proof -
  have a: "\<not> once (initial_store empty_database)" and b: "db (initial_store empty_database) = None"
    by (simp_all add: initial_store_def)
  have c: "InitDB env_schema_fails (initial_store empty_database) =
     (Some (Error ''disk I/O error''),
      \<lparr>db = Some 1, once = True,
       disk = \<lparr>journal_mode = ''wal'', activities = None, indexes = []\<rparr>,
       calls = [MkdirAll ''data'', SqlOpen ''sqlite3'' ''data/activities.db'',
                DbExec PragmaWAL, DbExec Schema]\<rparr>)"
    by (simp add: InitDB_def init_setup_def initial_store_def empty_database_def
      env_schema_fails_def env_ok_def record_call_def dataDir_def dbPath_def dbFileName_def
      run_schema_def)
  show ?thesis
    using GetDB_before_init [OF a b c] a b c
    by (simp add: env_schema_fails_def env_ok_def)
qed

section \<open>Store: initialization runs once\<close>

text \<open>
  C4: in every state, a second \<open>InitDB\<close> right after a first one returns nil and leaves
  the whole state as the first call left it: no call on a collaborator is added, and
  \<open>db\<close> and the database file are the same. When the first call was the first of the
  process and returned nil, \<open>db\<close> is the handle that \<open>sql.Open\<close> returned, before and
  after the second call, and the table and its three indexes are present.
\<close>

theorem InitDB_idempotent:
  "InitDB env2 (snd (InitDB env1 s)) = (None, snd (InitDB env1 s)) \<and>
   (\<not> once s \<and> fst (InitDB env1 s) = None \<longrightarrow>
      (\<exists>h. open_result env1 = Inr h \<and> db (snd (InitDB env1 s)) = Some h \<and>
           db (snd (InitDB env2 (snd (InitDB env1 s)))) = Some h) \<and>
      schema_present (disk (snd (InitDB env2 (snd (InitDB env1 s))))))"
proof -
  have twice: "InitDB env2 (snd (InitDB env1 s)) = (None, snd (InitDB env1 s))"
    by (rule InitDB_done) (rule once_after_InitDB)
  have "\<exists>h. open_result env1 = Inr h \<and> db (snd (InitDB env1 s)) = Some h \<and>
          schema_present (disk (snd (InitDB env1 s)))"
    if fresh: "\<not> once s" and succeeded: "fst (InitDB env1 s) = None"
  proof -
    obtain err s1 where body: "init_setup env1 s = (err, s1)"
      by (cases "init_setup env1 s")
    with fresh succeeded have "err = None" and after: "snd (InitDB env1 s) = s1\<lparr>once := True\<rparr>"
      by (simp_all add: InitDB_def)
    with body init_setup_success [of env1 s s1] show ?thesis
      by auto
  qed
  with twice show ?thesis
    by auto
qed

theorem InitDB_idempotent_witness:
  "InitDB env_schema_fails (snd (InitDB env_ok (initial_store empty_database))) =
     (None, snd (InitDB env_ok (initial_store empty_database))) \<and>
   \<not> once (initial_store empty_database) \<and>
   fst (InitDB env_ok (initial_store empty_database)) = None \<and>
   db (snd (InitDB env_schema_fails (snd (InitDB env_ok (initial_store empty_database))))) = Some 1 \<and>
   schema_present
     (disk (snd (InitDB env_schema_fails (snd (InitDB env_ok (initial_store empty_database))))))"
proof -
  have a: "\<not> once (initial_store empty_database)"
    by (simp add: initial_store_def)
  have b: "fst (InitDB env_ok (initial_store empty_database)) = None"
    by (simp add: InitDB_def init_setup_def initial_store_def env_ok_def record_call_def)
  have c: "open_result env_ok = Inr 1"
    by (simp add: env_ok_def)
  show ?thesis
    using InitDB_idempotent [of env_schema_fails env_ok "initial_store empty_database"] a b c
    by auto
qed

text \<open>
  C6: when the first \<open>InitDB\<close> of the process returns an error, each later \<open>InitDB\<close>
  returns nil and changes nothing, whatever the collaborators would answer then: no
  call is made on them, and \<open>db\<close> and the database file stay as the failed attempt left
  them. The failed attempt itself never reached the end of the setup (its closing log
  line is not among the calls it made).
\<close>

theorem InitDB_failure_is_final:
  assumes "\<not> once s" and "fst (InitDB env s) = Some e"
  shows "InitDB_calls envs (snd (InitDB env s)) = (replicate (length envs) None, snd (InitDB env s)) \<and>
         LogInfof (''Activity logging database initialized at: '' @ dbPath)
           \<notin> set (drop (length (calls s)) (calls (snd (InitDB env s))))"
proof -
  have "init_setup env s \<noteq> (None, snd (init_setup env s)) \<Longrightarrow>
        LogInfof (''Activity logging database initialized at: '' @ dbPath)
           \<notin> set (drop (length (calls s)) (calls (snd (init_setup env s))))"
    by (auto simp add: init_setup_def record_call_def Let_def
        split: option.splits sum.splits prod.splits)
  with assms have "LogInfof (''Activity logging database initialized at: '' @ dbPath)
           \<notin> set (drop (length (calls s)) (calls (snd (InitDB env s))))"
    by (auto simp add: InitDB_def split: prod.splits)
  then show ?thesis
    by (simp add: InitDB_calls_done once_after_InitDB)
qed

theorem InitDB_failure_is_final_witness:
  "\<not> once (initial_store empty_database) \<and>
   fst (InitDB env_mkdir_fails (initial_store empty_database))
     = Some (Error ''mkdir data: permission denied'') \<and>
   InitDB_calls [env_ok, env_ok] (snd (InitDB env_mkdir_fails (initial_store empty_database)))
     = ([None, None], \<lparr>db = None, once = True, disk = empty_database, calls = [MkdirAll ''data'']\<rparr>)"
proof -
  have a: "\<not> once (initial_store empty_database)"
    by (simp add: initial_store_def)
  have b: "fst (InitDB env_mkdir_fails (initial_store empty_database))
     = Some (Error ''mkdir data: permission denied'')"
    by (simp add: InitDB_def init_setup_def initial_store_def env_mkdir_fails_def env_ok_def
        record_call_def)
  have c: "snd (InitDB env_mkdir_fails (initial_store empty_database))
     = \<lparr>db = None, once = True, disk = empty_database, calls = [MkdirAll ''data'']\<rparr>"
    by (simp add: InitDB_def init_setup_def initial_store_def env_mkdir_fails_def env_ok_def
        record_call_def dataDir_def)
  show ?thesis
    using InitDB_failure_is_final [OF a b, of "[env_ok, env_ok]"] a b c
    by (simp add: numeral_2_eq_2)
qed

section \<open>Classifier\<close>

lemma first_match_classify_rules:
  "first_match classify_rules method path =
     (if path = ''/'' \<and> method = ''GET'' then ''page_view''
      else if path = ''/cart'' \<and> method = ''POST'' then ''add_to_cart''
      else if path = ''/cart/empty'' \<and> method = ''POST'' then ''empty_cart''
      else if path = ''/cart/checkout'' \<and> method = ''POST'' then ''checkout''
      else if path = ''/setCurrency'' \<and> method = ''POST'' then ''currency_change''
      else if prefix ''/product/'' path \<and> method = ''GET'' then ''product_view''
      else ''other'')"
  by (simp add: classify_rules_def)

lemmas ActivityType_defs =
  ActivityTypePageView_def ActivityTypeAddToCart_def ActivityTypeEmptyCart_def
  ActivityTypeCheckout_def ActivityTypeCurrencyChange_def ActivityTypeProductView_def

lemma getActivityType_routed:
  "CurrentRoute r = Some rt \<Longrightarrow>
   getActivityType r = first_match classify_rules (req_Method r) (fst (GetPathTemplate rt))"
  by (simp add: getActivityType_def first_match_classify_rules ActivityType_defs Let_def)

lemma first_match_in_types: "first_match classify_rules method path \<in> set activity_types"
  by (simp add: first_match_classify_rules activity_types_def)

lemma first_match_not_other:
  "(pr, m, t) \<in> set classify_rules \<Longrightarrow> path_matches pr path \<Longrightarrow>
   first_match classify_rules m path \<noteq> ''other''"
  by (auto simp add: first_match_classify_rules) (auto simp add: classify_rules_def)

text \<open>
  C2: \<open>getActivityType\<close> is the reference classifier applied to the method and the path
  template of the current route: \<open>unknown\<close> when there is no current route, else the
  result of the first of the six rules that matches, else \<open>other\<close>. Its result is one
  of the eight activity types; \<open>POST\<close> on \<open>/cart/checkout\<close> gives \<open>checkout\<close>; and
  whenever some rule matches, the result is not \<open>other\<close>.
\<close>

theorem getActivityType_classify:
  "getActivityType r =
     classify (req_Method r) (map_option (\<lambda>rt. fst (GetPathTemplate rt)) (CurrentRoute r)) \<and>
   getActivityType r \<in> set activity_types \<and>
   (\<forall>rt. CurrentRoute r = Some rt \<and> fst (GetPathTemplate rt) = ''/cart/checkout'' \<and>
         req_Method r = ''POST'' \<longrightarrow> getActivityType r = ''checkout'') \<and>
   (\<forall>rt pr t. CurrentRoute r = Some rt \<and> (pr, req_Method r, t) \<in> set classify_rules \<and>
         path_matches pr (fst (GetPathTemplate rt)) \<longrightarrow> getActivityType r \<noteq> ''other'')"
proof (cases "CurrentRoute r")
  case None
  then show ?thesis
    by (simp add: getActivityType_def activity_types_def)
next
  case (Some rt)
  then have eq: "getActivityType r = first_match classify_rules (req_Method r) (fst (GetPathTemplate rt))"
    by (rule getActivityType_routed)
  have "getActivityType r \<in> set activity_types"
    unfolding eq by (rule first_match_in_types)
  moreover have "fst (GetPathTemplate rt) = ''/cart/checkout'' \<and> req_Method r = ''POST''
      \<longrightarrow> getActivityType r = ''checkout''"
    unfolding eq by (simp add: first_match_classify_rules)
  moreover have "\<forall>pr t. (pr, req_Method r, t) \<in> set classify_rules \<and>
         path_matches pr (fst (GetPathTemplate rt)) \<longrightarrow> getActivityType r \<noteq> ''other''"
    unfolding eq using first_match_not_other by blast
  ultimately show ?thesis
    using Some eq by simp
qed

theorem getActivityType_classify_witness:
  "getActivityType example_request = ''checkout'' \<and>
   classify ''POST'' (Some ''/cart/checkout'') = ''checkout'' \<and>
   CurrentRoute example_request = Some (Route (Some ''/cart/checkout'')) \<and>
   (Exact ''/cart/checkout'', req_Method example_request, ''checkout'') \<in> set classify_rules \<and>
   path_matches (Exact ''/cart/checkout'') (fst (GetPathTemplate (Route (Some ''/cart/checkout'')))) \<and>
   ''checkout'' \<in> set activity_types"
proof -
  have a: "CurrentRoute example_request = Some (Route (Some ''/cart/checkout''))"
    and b: "req_Method example_request = ''POST''"
    by (simp_all add: example_request_def)
  have c: "fst (GetPathTemplate (Route (Some ''/cart/checkout''))) = ''/cart/checkout''"
    by simp
  have d: "(Exact ''/cart/checkout'', req_Method example_request, ''checkout'') \<in> set classify_rules"
    by (simp add: classify_rules_def b)
  from getActivityType_classify [of example_request] a b c
  have "getActivityType example_request = ''checkout''"
    by blast
  with getActivityType_classify [of example_request] a b c d show ?thesis
    by (simp add: first_match_classify_rules)
qed

section \<open>Middleware: the response recorder\<close>

lemma w_next_ServeHTTP: "w (next_ServeHTTP cs rr) = w rr @ cs"
proof (induction cs arbitrary: rr)
  case Nil
  then show ?case by simp
next
  case (Cons c cs)
  have "w (recorder_call c rr) = w rr @ [c]"
    by (cases c) (simp_all add: Header_def Write_def WriteHeader_def Let_def)
  with Cons show ?case by simp
qed

lemma status_without_WriteHeader:
  "first_WriteHeader cs = None \<Longrightarrow>
   status (next_ServeHTTP cs rr) =
     (if status rr = 0 \<and> (\<exists>b. CallWrite b \<in> set cs) then StatusOK else status rr)"
proof (induction cs arbitrary: rr)
  case Nil
  then show ?case by simp
next
  case (Cons c cs)
  show ?case
  proof (cases c)
    case CallHeader
    with Cons.prems have "first_WriteHeader cs = None" by simp
    from Cons.IH [OF this, of "Header rr"] CallHeader show ?thesis
      by (auto simp add: Header_def)
  next
    case (CallWrite b)
    with Cons.prems have "first_WriteHeader cs = None" by simp
    from Cons.IH [OF this, of "Write b rr"] CallWrite show ?thesis
      by (auto simp add: Write_def Let_def StatusOK_def)
  next
    case (CallWriteHeader st)
    with Cons.prems show ?thesis by simp
  qed
qed

lemma ServeHTTP_stores_recorded_status:
  assumes "ctx_SessionID r \<noteq> None" and "ctx_RequestID r \<noteq> None"
    and "result (ServeHTTP jm env wrapped w0 r s) = Return ()"
    and "exec_failure env = None" and "activities (disk s) \<noteq> None"
  shows "\<exists>row. persisted (store_after (ServeHTTP jm env wrapped w0 r s)) = persisted s @ [row] \<and>
           StatusCode row = status (next_ServeHTTP (wrapped r) \<lparr>w = w0, status = 0\<rparr>)"
  using assms
  by (auto simp add: ServeHTTP_def Let_def LogActivity_def GetDB_def sql_insert_def record_call_def
      persisted_def split: option.splits sum.splits)

text \<open>
  C3 does not hold of the code: \<open>WriteHeader\<close> of the recorder overwrites \<open>status\<close>
  on every call, where \<open>Write\<close> sets it only while it is still 0. A handler that
  calls \<open>WriteHeader(404)\<close> and then \<open>WriteHeader(500)\<close> wrote 404 first, and the
  recorder holds 500; a handler that writes body bytes and then calls
  \<open>WriteHeader(500)\<close> leaves 500 as well. That value is the \<open>StatusCode\<close> of the row
  the middleware inserts.
\<close>

theorem responseRecorder_records_last_status:
  "first_WriteHeader [CallWriteHeader 404, CallWriteHeader 500] = Some 404 \<and>
   status (next_ServeHTTP [CallWriteHeader 404, CallWriteHeader 500] \<lparr>w = [], status = 0\<rparr>) = 500 \<and>
   status (next_ServeHTTP [CallWrite ''page'', CallWriteHeader 500] \<lparr>w = [], status = 0\<rparr>) = 500 \<and>
   map StatusCode
     (persisted (store_after
        (ServeHTTP example_marshal env_insert_ok (\<lambda>r. [CallWriteHeader 404, CallWriteHeader 500]) []
           example_request example_store)))
     = [200, 200, 200, 200, 500]"
  by (simp add: ServeHTTP_def LogActivity_def GetDB_def sql_insert_def record_call_def
      example_request_def example_store_def persisted_def WriteHeader_def Write_def Let_def
      request_details_def getActivityType_def ActivityType_defs env_insert_ok_def
      example_table_def example_row_def StatusOK_def)

section \<open>Middleware: persistence failures\<close>

text \<open>
  C5: the calls that reach the caller's \<open>ResponseWriter\<close> are the same whatever
  \<open>LogActivity\<close> meets (its clock and the fate of its \<open>Exec\<close>): with both context
  values present they are the calls of the wrapped handler, appended to what the writer
  had received. When the \<open>Exec\<close> fails on an opened database, \<open>ServeHTTP\<close> still
  returns normally, the database file is unchanged, and the only calls made are that one
  \<open>Exec\<close> and one warning carrying the error.
\<close>

theorem persistence_failure_keeps_response:
  "response (ServeHTTP jm env1 wrapped w0 r s) = response (ServeHTTP jm env2 wrapped w0 r s) \<and>
   (ctx_SessionID r \<noteq> None \<and> ctx_RequestID r \<noteq> None \<longrightarrow>
      response (ServeHTTP jm env1 wrapped w0 r s) = w0 @ wrapped r) \<and>
   (ctx_SessionID r \<noteq> None \<and> ctx_RequestID r \<noteq> None \<and> db s \<noteq> None \<and>
    exec_failure env1 = Some err \<longrightarrow>
      result (ServeHTTP jm env1 wrapped w0 r s) = Return () \<and>
      disk (store_after (ServeHTTP jm env1 wrapped w0 r s)) = disk s \<and>
      calls (store_after (ServeHTTP jm env1 wrapped w0 r s)) =
        calls s @ [DbExec InsertActivity, LogWarnf (''Failed to log activity: '' @ error_text err)])"
proof -
  have resp: "response (ServeHTTP jm env wrapped w0 r s) =
      (if ctx_SessionID r \<noteq> None \<and> ctx_RequestID r \<noteq> None then w0 @ wrapped r else w0)" for env
    by (simp add: ServeHTTP_def Let_def w_next_ServeHTTP
        split: option.splits prod.splits outcome.splits)
  have "result (ServeHTTP jm env1 wrapped w0 r s) = Return () \<and>
      disk (store_after (ServeHTTP jm env1 wrapped w0 r s)) = disk s \<and>
      calls (store_after (ServeHTTP jm env1 wrapped w0 r s)) =
        calls s @ [DbExec InsertActivity, LogWarnf (''Failed to log activity: '' @ error_text err)]"
    if "ctx_SessionID r \<noteq> None" "ctx_RequestID r \<noteq> None" "db s \<noteq> None" "exec_failure env1 = Some err"
    using that
    by (auto simp add: ServeHTTP_def Let_def LogActivity_def GetDB_def sql_insert_def record_call_def)
  with resp show ?thesis
    by simp
qed

theorem persistence_failure_keeps_response_witness:
  "ctx_SessionID example_request \<noteq> None \<and> ctx_RequestID example_request \<noteq> None \<and>
   db example_store \<noteq> None \<and>
   exec_failure env_insert_fails = Some (Error ''database is locked'') \<and>
   response (ServeHTTP example_marshal env_insert_fails example_handler [] example_request example_store)
     = [CallHeader, CallWriteHeader 302, CallWrite ''moved''] \<and>
   response (ServeHTTP example_marshal env_insert_ok example_handler [] example_request example_store)
     = [CallHeader, CallWriteHeader 302, CallWrite ''moved''] \<and>
   result (ServeHTTP example_marshal env_insert_fails example_handler [] example_request example_store)
     = Return () \<and>
   calls (store_after
       (ServeHTTP example_marshal env_insert_fails example_handler [] example_request example_store))
     = [DbExec InsertActivity, LogWarnf ''Failed to log activity: database is locked'']"
proof -
  have a: "ctx_SessionID example_request \<noteq> None" and b: "ctx_RequestID example_request \<noteq> None"
    by (simp_all add: example_request_def)
  have c: "db example_store \<noteq> None" and c': "calls example_store = []"
    by (simp_all add: example_store_def)
  have d: "exec_failure env_insert_fails = Some (Error ''database is locked'')"
    by (simp add: env_insert_fails_def)
  note t = persistence_failure_keeps_response [of example_marshal env_insert_fails example_handler
        "[]" example_request example_store env_insert_ok "Error ''database is locked''"]
  from t a b have r1: "response (ServeHTTP example_marshal env_insert_fails example_handler []
        example_request example_store) = [] @ example_handler example_request"
    by blast
  from t have r2: "response (ServeHTTP example_marshal env_insert_ok example_handler []
        example_request example_store) = response (ServeHTTP example_marshal env_insert_fails
        example_handler [] example_request example_store)"
    by simp
  from t a b c d have r3: "result (ServeHTTP example_marshal env_insert_fails example_handler []
        example_request example_store) = Return () \<and>
      calls (store_after (ServeHTTP example_marshal env_insert_fails example_handler []
        example_request example_store)) = calls example_store @
        [DbExec InsertActivity, LogWarnf (''Failed to log activity: '' @ error_text (Error ''database is locked''))]"
    by blast
  from a b c d r1 r3 show ?thesis
    unfolding r2 by (simp add: example_handler_def error_text_def c')
qed

section \<open>Repository: helper lemmas\<close>

lemma disk_record_call: "disk (record_call c s) = disk s"
  by (simp add: record_call_def)

lemma scan_activities_all: "scan_activities (map Inr xs) acc = Inr (acc @ xs)"
  by (induction xs arbitrary: acc) simp_all

lemma scan_activities_fails:
  "k < length xs \<Longrightarrow> scan_activities ((map Inr xs)[k := Inl e]) acc = Inl e"
proof (induction xs arbitrary: k acc)
  case Nil
  then show ?case by simp
next
  case (Cons x xs)
  then show ?case by (cases k) simp_all
qed

lemma queryActivities_returns:
  "db s \<noteq> None \<Longrightarrow> \<exists>found err. fst (queryActivities f q sel s) = Return (found, err)"
  by (auto simp add: queryActivities_def GetDB_def Let_def split: sum.splits prod.splits)

lemma queryActivities_store:
  "snd (queryActivities f q sel s) = (if db s = None then s else record_call (DbQuery q) s)"
  by (auto simp add: queryActivities_def GetDB_def Let_def split: sum.splits prod.splits)

lemma queryActivities_NoFault:
  "db s \<noteq> None \<Longrightarrow> activities (disk s) = Some table \<Longrightarrow>
   fst (queryActivities NoFault q sel s) = Return (sel table, None)"
  by (auto simp add: queryActivities_def GetDB_def Let_def run_select_def db_Query_def
      disk_record_call scan_activities_all)

lemma queryActivities_found:
  assumes "fst (queryActivities f q sel s) = Return (found, err)"
  shows "\<exists>k. found = take k (sel (persisted s))"
proof (cases "db s")
  case None
  with assms show ?thesis
    by (simp add: queryActivities_def GetDB_def)
next
  case (Some h)
  show ?thesis
  proof (cases "activities (disk s)")
    case None
    with Some assms have "found = []"
      by (auto simp add: queryActivities_def GetDB_def Let_def run_select_def disk_record_call)
    then have "found = take 0 (sel (persisted s))" by simp
    then show ?thesis ..
  next
    case table: (Some table)
    then have p: "persisted s = table"
      by (simp add: persisted_def)
    show ?thesis
    proof (cases f)
      case NoFault
      with Some table assms have "found = sel table"
        by (simp add: queryActivities_NoFault)
      then have "found = take (length (sel table)) (sel (persisted s))"
        by (simp add: p)
      then show ?thesis ..
    next
      case (QueryFails e)
      with Some table assms have "found = take 0 (sel (persisted s))"
        by (auto simp add: queryActivities_def GetDB_def Let_def run_select_def db_Query_def
            disk_record_call)
      then show ?thesis ..
    next
      case (ScanFails k e)
      show ?thesis
      proof (cases "k < length (sel table)")
        case True
        with ScanFails Some table assms have "found = take 0 (sel (persisted s))"
          by (auto simp add: queryActivities_def GetDB_def Let_def run_select_def db_Query_def
              disk_record_call scan_activities_fails)
        then show ?thesis ..
      next
        case False
        then have "(map Inr (sel table))[k := Inl e] = map Inr (sel table)"
          by (simp add: list_update_beyond)
        with ScanFails Some table assms have "found = take (length (sel table)) (sel (persisted s))"
          by (auto simp add: queryActivities_def GetDB_def Let_def run_select_def db_Query_def
              disk_record_call scan_activities_all p)
        then show ?thesis ..
      qed
    next
      case (RowsFail k e)
      with Some table assms have "found = take k (sel (persisted s))"
        by (auto simp add: queryActivities_def GetDB_def Let_def run_select_def db_Query_def
            disk_record_call scan_activities_all p)
      then show ?thesis ..
    qed
  qed
qed

lemma set_order_by: "set (order_by_created_at_desc table) = set table"
  by (simp add: order_by_created_at_desc_def)

lemma length_order_by: "length (order_by_created_at_desc table) = length table"
  by (simp add: order_by_created_at_desc_def)

lemma sorted_order_by:
  "sorted_wrt (\<lambda>a b. created_at a \<ge> created_at b) (order_by_created_at_desc table)"
proof -
  have "sorted (map created_at (sort_key created_at table))"
    by simp
  then have "sorted_wrt (\<lambda>a b. created_at a \<le> created_at b) (sort_key created_at table)"
    by (simp add: sorted_wrt_map)
  then show ?thesis
    by (simp add: order_by_created_at_desc_def sorted_wrt_rev)
qed

lemma set_sql_limit: "set (sql_limit n xs) \<subseteq> set xs"
  by (auto simp add: sql_limit_def dest: in_set_takeD)

lemma sorted_sql_limit:
  "sorted_wrt P xs \<Longrightarrow> sorted_wrt P (sql_limit n xs)"
  by (simp add: sql_limit_def)

lemma select_by_session_props:
  "(\<forall>a \<in> set (select_by_session sessionID limit table). SessionID a = sessionID \<and> a \<in> set table) \<and>
   sorted_wrt (\<lambda>a b. created_at a \<ge> created_at b) (select_by_session sessionID limit table) \<and>
   (0 \<le> limit \<longrightarrow> length (select_by_session sessionID limit table)
        = min (nat limit) (length (filter (\<lambda>a. SessionID a = sessionID) table)))"
proof -
  have "set (select_by_session sessionID limit table)
          \<subseteq> set (filter (\<lambda>a. SessionID a = sessionID) table)"
    using set_sql_limit [of limit "order_by_created_at_desc (filter (\<lambda>a. SessionID a = sessionID) table)"]
    by (simp add: select_by_session_def set_order_by del: set_filter)
  then have "\<forall>a \<in> set (select_by_session sessionID limit table). SessionID a = sessionID \<and> a \<in> set table"
    by auto
  moreover have "sorted_wrt (\<lambda>a b. created_at a \<ge> created_at b) (select_by_session sessionID limit table)"
    unfolding select_by_session_def by (rule sorted_sql_limit) (rule sorted_order_by)
  moreover have "0 \<le> limit \<longrightarrow> length (select_by_session sessionID limit table)
        = min (nat limit) (length (filter (\<lambda>a. SessionID a = sessionID) table))"
    by (simp add: select_by_session_def sql_limit_def length_order_by min.commute)
  ultimately show ?thesis by blast
qed

lemma scan_stats_all: "scan_stats (map Inr kvs) stats = Inr (stats ++ map_of (rev kvs))"
proof (induction kvs arbitrary: stats)
  case Nil
  then show ?case by simp
next
  case (Cons kv kvs)
  obtain k v where kv: "kv = (k, v)" by (cases kv)
  have e: "stats(k \<mapsto> v) ++ map_of (rev kvs) = stats ++ map_of (rev (kv # kvs))"
    by (rule ext) (simp add: kv map_add_def split: option.splits)
  have "scan_stats (map Inr (kv # kvs)) stats = scan_stats (map Inr kvs) (stats(k \<mapsto> v))"
    by (simp add: kv)
  also have "\<dots> = Inr (stats(k \<mapsto> v) ++ map_of (rev kvs))"
    by (rule Cons.IH)
  finally show ?case
    by (simp only: e)
qed

lemma scan_stats_fails:
  "k < length kvs \<Longrightarrow> scan_stats ((map Inr kvs)[k := Inl e]) stats = Inl e"
proof (induction kvs arbitrary: k stats)
  case Nil
  then show ?case by simp
next
  case (Cons kv kvs)
  then show ?case by (cases k; cases kv) simp_all
qed

lemma map_of_select_stats:
  "map_of (rev (select_stats startTime endTime table)) t =
     (let n = length (filter (\<lambda>a. ActivityType a = t \<and> sqlite_text startTime \<le> created_at a \<and>
                              created_at a \<le> sqlite_text endTime) table)
      in if n = 0 then None else Some (int n))"
proof -
  let ?sel = "filter (\<lambda>a. sqlite_text startTime \<le> created_at a \<and>
                          created_at a \<le> sqlite_text endTime) table"
  let ?n = "\<lambda>t. int (length (filter (\<lambda>a. ActivityType a = t) ?sel))"
  have cnt: "length (filter (\<lambda>a. ActivityType a = t) ?sel) =
      length (filter (\<lambda>a. ActivityType a = t \<and> sqlite_text startTime \<le> created_at a \<and>
                              created_at a \<le> sqlite_text endTime) table)"
    by (simp add: conj_commute conj_left_commute)
  have mem: "t \<in> set (map ActivityType ?sel) \<longleftrightarrow>
      length (filter (\<lambda>a. ActivityType a = t) ?sel) \<noteq> 0"
    by (auto simp add: filter_empty_conv)
  have d: "distinct (map fst (select_stats startTime endTime table))"
    by (simp add: select_stats_def Let_def comp_def)
  then have "distinct (map fst (rev (select_stats startTime endTime table)))"
    by (simp add: rev_map [symmetric])
  with d have "map_of (rev (select_stats startTime endTime table))
      = map_of (select_stats startTime endTime table)"
    by (simp add: map_of_inject_set)
  then have "map_of (rev (select_stats startTime endTime table)) t
      = map_of (select_stats startTime endTime table) t"
    by simp
  also have "\<dots> = (if t \<in> set (map ActivityType ?sel) then Some (?n t) else None)"
    by (simp add: select_stats_def Let_def map_of_map_restrict restrict_map_def)
  finally show ?thesis
    using mem unfolding cnt by (simp add: Let_def)
qed

lemma GetActivityStats_NoFault:
  "db s \<noteq> None \<Longrightarrow> activities (disk s) = Some table \<Longrightarrow>
   fst (GetActivityStats NoFault startTime endTime s)
     = Return (map_of (rev (select_stats startTime endTime table)), None)"
  by (auto simp add: GetActivityStats_def GetDB_def Let_def run_select_def db_Query_def
      disk_record_call scan_stats_all)

lemma GetActivityStats_complete:
  assumes "fst (GetActivityStats f startTime endTime s) = Return (stats, None)"
  shows "\<exists>table. activities (disk s) = Some table \<and>
           stats = map_of (rev (select_stats startTime endTime table))"
proof (cases "db s")
  case None
  with assms show ?thesis
    by (simp add: GetActivityStats_def GetDB_def)
next
  case (Some h)
  show ?thesis
  proof (cases "activities (disk s)")
    case None
    with Some assms show ?thesis
      by (auto simp add: GetActivityStats_def GetDB_def Let_def run_select_def disk_record_call)
  next
    case table: (Some table)
    let ?kvs = "select_stats startTime endTime table"
    have "stats = map_of (rev ?kvs)"
    proof (cases f)
      case NoFault
      with Some table assms show ?thesis
        by (simp add: GetActivityStats_NoFault)
    next
      case (QueryFails e)
      with Some table assms show ?thesis
        by (auto simp add: GetActivityStats_def GetDB_def Let_def run_select_def db_Query_def
            disk_record_call)
    next
      case (ScanFails k e)
      show ?thesis
      proof (cases "k < length ?kvs")
        case True
        with ScanFails Some table assms show ?thesis
          by (auto simp add: GetActivityStats_def GetDB_def Let_def run_select_def db_Query_def
              disk_record_call scan_stats_fails)
      next
        case False
        then have "(map Inr ?kvs)[k := Inl e] = map Inr ?kvs"
          by (simp add: list_update_beyond)
        with ScanFails Some table assms show ?thesis
          by (auto simp add: GetActivityStats_def GetDB_def Let_def run_select_def db_Query_def
              disk_record_call scan_stats_all)
      qed
    next
      case (RowsFail k e)
      with Some table assms show ?thesis
        by (auto simp add: GetActivityStats_def GetDB_def Let_def run_select_def db_Query_def
            disk_record_call scan_stats_all)
    qed
    with table show ?thesis by simp
  qed
qed

lemma persisted_example_store: "persisted example_store = example_table"
  by (simp add: persisted_def example_store_def)

lemma persisted_LogActivity:
  "persisted (snd (LogActivity env activity s)) = persisted s \<or>
   (\<exists>row. persisted (snd (LogActivity env activity s)) = persisted s @ [row])"
  by (auto simp add: LogActivity_def GetDB_def Let_def sql_insert_def record_call_def persisted_def
      split: option.splits)

lemma persisted_InitDB: "persisted (snd (InitDB env s)) = persisted s"
  using run_schema_keeps
  by (auto simp add: InitDB_def init_setup_def Let_def record_call_def persisted_def
      apply_schema_def split: sum.splits prod.splits option.splits)

lemma persisted_queryActivities: "persisted (snd (queryActivities f q sel s)) = persisted s"
  by (simp add: queryActivities_store persisted_def disk_record_call)

lemma persisted_GetActivityStats:
  "persisted (snd (GetActivityStats f startTime endTime s)) = persisted s"
  by (auto simp add: GetActivityStats_def GetDB_def Let_def persisted_def disk_record_call
      split: option.splits sum.splits prod.splits)

lemma persisted_perform:
  "persisted (perform op s) = persisted s \<or>
   (\<exists>env activity row. op = OpLogActivity env activity \<and> persisted (perform op s) = persisted s @ [row])"
proof (cases op)
  case (OpLogActivity env activity)
  with persisted_LogActivity [of env activity s] show ?thesis by auto
qed (simp_all add: persisted_InitDB persisted_queryActivities persisted_GetActivityStats
      GetActivitiesBySession_def GetRecentActivities_def)

lemma prefix_perform: "prefix (persisted s) (persisted (perform op s))"
  using persisted_perform [of op s] by auto

lemma GetActivitiesBySession_rows:
  assumes "0 < limit"
    and "fst (GetActivitiesBySession f sessionID limit s) = Return (found, err)"
  shows "(\<forall>a \<in> set found. SessionID a = sessionID \<and> a \<in> set (persisted s)) \<and>
         length found \<le> nat limit \<and>
         sorted_wrt (\<lambda>a b. created_at a \<ge> created_at b) found"
proof -
  let ?sel = "select_by_session sessionID limit"
  note props = select_by_session_props [of sessionID limit "persisted s"]
  from assms(2) obtain k where k: "found = take k (?sel (persisted s))"
    using queryActivities_found unfolding GetActivitiesBySession_def by blast
  have "set found \<subseteq> set (?sel (persisted s))"
    unfolding k by (rule set_take_subset)
  with props have "\<forall>a \<in> set found. SessionID a = sessionID \<and> a \<in> set (persisted s)"
    by blast
  moreover from props assms(1) have "length found \<le> nat limit"
    by (simp add: k)
  moreover from props have "sorted_wrt (\<lambda>a b. created_at a \<ge> created_at b) found"
    unfolding k by simp
  ultimately show ?thesis by blast
qed

lemma GetActivityStats_text_window:
  assumes "fst (GetActivityStats f startTime endTime s) = Return (stats, None)"
  shows "stats t =
     (let n = length (filter (\<lambda>a. ActivityType a = t \<and> sqlite_text startTime \<le> created_at a \<and>
                              created_at a \<le> sqlite_text endTime) (persisted s))
      in if n = 0 then None else Some (int n))"
proof -
  from assms obtain table where "activities (disk s) = Some table"
    and "stats = map_of (rev (select_stats startTime endTime table))"
    using GetActivityStats_complete by blast
  then show ?thesis
    by (simp add: persisted_def map_of_select_stats)
qed

lemma sqlite_text_window:
  "sqlite_text noon_utc = ''2025-01-01 12:00:00+00:00''"
  "sqlite_text window_start = ''2025-01-01 16:30:00+05:00''"
  "sqlite_text window_end = ''2025-01-01 17:30:00+05:00''"
  by (simp_all add: sqlite_text_def noon_utc_def window_start_def window_end_def fraction_def
      zone_def digit_def)

lemma UnixNano_window:
  "UnixNano noon_utc = 1735732800000000000"
  "UnixNano window_start = 1735731000000000000"
  "UnixNano window_end = 1735734600000000000"
  by (simp_all add: UnixNano_def days_from_civil_def noon_utc_def window_start_def window_end_def)

lemma sqlite_text_change:
  "sqlite_text before_change = ''2025-11-02 01:30:00-04:00''"
  "sqlite_text after_change = ''2025-11-02 01:10:00-05:00''"
  by (simp_all add: sqlite_text_def before_change_def after_change_def fraction_def
      zone_def digit_def)

lemma UnixNano_change:
  "UnixNano before_change = 1762061400000000000"
  "UnixNano after_change = 1762063800000000000"
  by (simp_all add: UnixNano_def days_from_civil_def before_change_def after_change_def)

lemma persisted_noon_store: "persisted noon_store = [noon_row]"
  by (simp add: noon_store_def noon_row_def opened_store_def LogActivity_def GetDB_def
      sql_insert_def record_call_def persisted_def next_id_def)

lemma persisted_change_store: "persisted change_store = [older_row, newer_row]"
  by (simp add: change_store_def older_row_def newer_row_def opened_store_def LogActivity_def
      GetDB_def sql_insert_def record_call_def persisted_def next_id_def example_activity_def)

section \<open>Repository: theorems\<close>

text \<open>
  C7 does not hold of the code: the window is not compared as instants. The driver binds
  the two bounds and the stored creation time as texts in the offset each value carries,
  and \<open>BETWEEN\<close> compares the texts. A row logged at 12:00:00 UTC lies, as an instant,
  within 16:30:00+05:00 to 17:30:00+05:00 (11:30 to 12:30 UTC), so its type should have
  the count 1; \<open>GetActivityStats\<close> returns the empty map with a nil error.
\<close>

theorem GetActivityStats_misses_row_in_window:
  "persisted noon_store = [noon_row] \<and>
   ActivityType noon_row = ''page_view'' \<and>
   UnixNano window_start \<le> UnixNano (CreatedAt noon_row) \<and>
   UnixNano (CreatedAt noon_row) \<le> UnixNano window_end \<and>
   count_in_window window_start window_end (persisted noon_store) ''page_view'' = 1 \<and>
   fst (GetActivityStats NoFault window_start window_end noon_store) = Return (Map.empty, None)"
proof -
  have db: "db noon_store \<noteq> None" and t: "activities (disk noon_store) = Some [noon_row]"
    by (simp_all add: noon_store_def noon_row_def opened_store_def LogActivity_def GetDB_def
        sql_insert_def record_call_def next_id_def)
  have row: "ActivityType noon_row = ''page_view''" "CreatedAt noon_row = noon_utc"
    by (simp_all add: noon_row_def example_activity_def)
  have "select_stats window_start window_end [noon_row] = []"
    by (simp add: select_stats_def created_at_def row sqlite_text_window)
  with db t have "fst (GetActivityStats NoFault window_start window_end noon_store)
      = Return (Map.empty, None)"
    by (simp add: GetActivityStats_NoFault)
  then show ?thesis
    by (simp add: persisted_noon_store count_in_window_def row UnixNano_window)
qed

text \<open>
  C8 does not hold of the code: the rows are not ordered by creation time as instants.
  \<open>ORDER BY created_at DESC\<close> compares the stored texts, each in the offset the
  process had when it wrote the row. Of two rows of one session, written at
  01:30:00-04:00 and forty minutes later at 01:10:00-05:00, \<open>GetActivitiesBySession\<close>
  returns the older one first. (Only rows of the session are returned, and no more than
  the limit.)
\<close>

theorem GetActivitiesBySession_older_row_first:
  "persisted change_store = [older_row, newer_row] \<and>
   UnixNano (CreatedAt older_row) < UnixNano (CreatedAt newer_row) \<and>
   fst (GetActivitiesBySession NoFault ''s1'' 10 change_store)
     = Return ([older_row, newer_row], None)"
proof -
  have db: "db change_store \<noteq> None"
    and t: "activities (disk change_store) = Some [older_row, newer_row]"
    by (simp_all add: change_store_def older_row_def newer_row_def opened_store_def
        LogActivity_def GetDB_def sql_insert_def record_call_def next_id_def
        example_activity_def)
  have row: "CreatedAt older_row = before_change" "CreatedAt newer_row = after_change"
    "SessionID older_row = ''s1''" "SessionID newer_row = ''s1''"
    by (simp_all add: older_row_def newer_row_def example_activity_def)
  have "select_by_session ''s1'' 10 [older_row, newer_row] = [older_row, newer_row]"
    by (simp add: select_by_session_def sql_limit_def order_by_created_at_desc_def sort_key_def
        created_at_def row sqlite_text_change)
  with db t have "fst (GetActivitiesBySession NoFault ''s1'' 10 change_store)
      = Return ([older_row, newer_row], None)"
    by (simp add: GetActivitiesBySession_def queryActivities_NoFault)
  then show ?thesis
    by (simp add: persisted_change_store row UnixNano_change)
qed

text \<open>
  C9: on an opened database \<open>LogActivity\<close> returns after exactly one \<open>Exec\<close>. The
  \<open>CreatedAt\<close> the caller put in the struct does not matter. When it returns nil, the
  table has exactly one row more, at its end: the struct with a fresh id and the time
  of the clock as creation time. When the \<open>Exec\<close> fails, that error is returned and
  the database file is unchanged.
\<close>

theorem LogActivity_inserts_one_row:
  assumes "db s \<noteq> None"
  shows "(\<exists>err. fst (LogActivity env activity s) = Return err) \<and>
         calls (snd (LogActivity env activity s)) = calls s @ [DbExec InsertActivity] \<and>
         LogActivity env (activity\<lparr>CreatedAt := supplied\<rparr>) s = LogActivity env activity s \<and>
         (\<forall>table. exec_failure env = None \<and> activities (disk s) = Some table \<longrightarrow>
            fst (LogActivity env activity s) = Return None) \<and>
         (fst (LogActivity env activity s) = Return None \<longrightarrow>
            persisted (snd (LogActivity env activity s)) =
              persisted s @ [activity\<lparr>ID := next_id (persisted s), CreatedAt := now env\<rparr>]) \<and>
         (\<forall>err. exec_failure env = Some err \<longrightarrow> fst (LogActivity env activity s) = Return (Some err)) \<and>
         (\<forall>err. fst (LogActivity env activity s) = Return (Some err) \<longrightarrow>
            disk (snd (LogActivity env activity s)) = disk s)"
  using assms
  by (auto simp add: LogActivity_def GetDB_def Let_def sql_insert_def record_call_def persisted_def
      split: option.splits)

theorem LogActivity_inserts_one_row_witness:
  "db example_store \<noteq> None \<and>
   fst (LogActivity env_insert_ok (example_row 0 ''s9'' ''checkout'' 7) example_store) = Return None \<and>
   persisted (snd (LogActivity env_insert_ok (example_row 0 ''s9'' ''checkout'' 7) example_store))
     = example_table @ [example_row 5 ''s9'' ''checkout'' 50] \<and>
   fst (LogActivity env_insert_fails (example_row 0 ''s9'' ''checkout'' 7) example_store)
     = Return (Some (Error ''database is locked'')) \<and>
   disk (snd (LogActivity env_insert_fails (example_row 0 ''s9'' ''checkout'' 7) example_store))
     = disk example_store"
proof -
  have a: "db example_store \<noteq> None"
    and b: "activities (disk example_store) = Some example_table"
    by (simp_all add: example_store_def)
  have c: "exec_failure env_insert_ok = None" "now env_insert_ok = at_second 50"
    "exec_failure env_insert_fails = Some (Error ''database is locked'')"
    by (simp_all add: env_insert_ok_def env_insert_fails_def)
  have d: "next_id example_table = 5"
    by (simp add: next_id_def example_table_def example_row_def)
  have e: "(example_row 0 ''s9'' ''checkout'' 7)\<lparr>ID := 5, CreatedAt := at_second 50\<rparr>
      = example_row 5 ''s9'' ''checkout'' 50"
    by (simp add: example_row_def)
  note ok = LogActivity_inserts_one_row [OF a, of env_insert_ok "example_row 0 ''s9'' ''checkout'' 7" zero_Time]
  note bad = LogActivity_inserts_one_row [OF a, of env_insert_fails "example_row 0 ''s9'' ''checkout'' 7" zero_Time]
  from ok b c have r: "fst (LogActivity env_insert_ok (example_row 0 ''s9'' ''checkout'' 7) example_store) = Return None"
    by blast
  with ok have "persisted (snd (LogActivity env_insert_ok (example_row 0 ''s9'' ''checkout'' 7) example_store))
     = persisted example_store @ [(example_row 0 ''s9'' ''checkout'' 7)\<lparr>ID := next_id (persisted example_store), CreatedAt := now env_insert_ok\<rparr>]"
    by blast
  then have p: "persisted (snd (LogActivity env_insert_ok (example_row 0 ''s9'' ''checkout'' 7) example_store))
     = example_table @ [example_row 5 ''s9'' ''checkout'' 50]"
    by (simp add: persisted_example_store c d e)
  from bad c have f: "fst (LogActivity env_insert_fails (example_row 0 ''s9'' ''checkout'' 7) example_store)
     = Return (Some (Error ''database is locked''))"
    by blast
  with bad have "disk (snd (LogActivity env_insert_fails (example_row 0 ''s9'' ''checkout'' 7) example_store))
     = disk example_store"
    by blast
  with a r p f show ?thesis by blast
qed

text \<open>
  C10: after any sequence of \<open>InitDB\<close>, \<open>LogActivity\<close>,
  \<open>GetActivitiesBySession\<close>, \<open>GetRecentActivities\<close> and \<open>GetActivityStats\<close>, the
  rows stored before are still there, unchanged and in place, as the first rows of the
  table. One operation leaves the rows as they are, or it is a \<open>LogActivity\<close> and
  appends one row.
\<close>

theorem persisted_rows_never_change:
  "prefix (persisted s) (persisted (fold perform ops s)) \<and>
   (persisted (perform op s) = persisted s \<or>
    (\<exists>env activity row. op = OpLogActivity env activity \<and>
        persisted (perform op s) = persisted s @ [row]))"
proof -
  have "prefix (persisted s) (persisted (fold perform ops s))"
  proof (induction ops arbitrary: s)
    case Nil
    then show ?case by simp
  next
    case (Cons op ops)
    have "prefix (persisted s) (persisted (perform op s))"
      by (rule prefix_perform)
    also have "prefix (persisted (perform op s)) (persisted (fold perform ops (perform op s)))"
      by (rule Cons.IH)
    finally show ?case by simp
  qed
  with persisted_perform [of op s] show ?thesis by blast
qed

theorem persisted_rows_never_change_witness:
  "prefix example_table
     (persisted (fold perform
        [OpLogActivity env_insert_ok (example_row 0 ''s9'' ''checkout'' 7),
         OpGetRecentActivities NoFault 1, OpInitDB env_ok,
         OpGetActivityStats NoFault (at_second 0) (at_second 59), OpGetActivitiesBySession NoFault ''s1'' 5]
        example_store)) \<and>
   persisted (perform (OpGetRecentActivities NoFault 1) example_store) = example_table"
proof -
  have "persisted (perform (OpGetRecentActivities NoFault 1) example_store) = example_table"
    using persisted_rows_never_change [of example_store "[]" "OpGetRecentActivities NoFault 1"]
    by (simp add: persisted_example_store)
  with persisted_rows_never_change [of example_store
        "[OpLogActivity env_insert_ok (example_row 0 ''s9'' ''checkout'' 7),
         OpGetRecentActivities NoFault 1, OpInitDB env_ok,
         OpGetActivityStats NoFault (at_second 0) (at_second 59), OpGetActivitiesBySession NoFault ''s1'' 5]"
        "OpInitDB env_ok"]
  show ?thesis
    by (simp only: persisted_example_store)
qed

end
